theory Spec2Isabelle
  imports Main "HOL-Library.Sublist"
begin

section \<open>Strings and characters\<close>

text \<open>
  The request interpreter \<^verbatim>\<open>parseMaterialRequest\<close> of
  \<^verbatim>\<open>chatmat/frontend/src/utils/parseRequest.js\<close> works on JavaScript strings.
  A string is modelled as a \<^typ>\<open>string\<close>, each character being one code unit in the
  range U+0000 .. U+00FF (Latin-1).  This range contains every character the patterns and
  tables of the source mention, the multiplication sign U+00D7 included, and it is closed
  under \<^verbatim>\<open>toLowerCase\<close>.  Code units above U+00FF are outside the model.
\<close>

definition code :: "char \<Rightarrow> nat" where
  "code c = of_char c"

text \<open>The multiplication sign of the pattern \<^verbatim>\<open>[x\<times>]\<close>, U+00D7.\<close>

definition times_sign :: char where
  "times_sign = CHR 0xD7"

text \<open>\<^verbatim>\<open>\d\<close> is \<^verbatim>\<open>[0-9]\<close>.\<close>

definition isDigit :: "char \<Rightarrow> bool" where
  "isDigit c = (48 \<le> code c \<and> code c \<le> 57)"

text \<open>
  \<^verbatim>\<open>\s\<close> is the white space and the line terminators of ECMAScript: below U+0100 these
  are TAB, LF, VT, FF, CR, SPACE and NO-BREAK SPACE.  \<^verbatim>\<open>trim\<close> strips the same set.
\<close>

definition isSpace :: "char \<Rightarrow> bool" where
  "isSpace c = (code c \<in> {9, 10, 11, 12, 13, 32, 160})"

text \<open>The word characters that decide \<^verbatim>\<open>\b\<close>: \<^verbatim>\<open>[A-Za-z0-9_]\<close>.\<close>

definition isWordChar :: "char \<Rightarrow> bool" where
  "isWordChar c =
     ((65 \<le> code c \<and> code c \<le> 90) \<or> (97 \<le> code c \<and> code c \<le> 122)
      \<or> (48 \<le> code c \<and> code c \<le> 57) \<or> code c = 95)"

text \<open>
  \<^verbatim>\<open>toLowerCase\<close>, character by character: \<^verbatim>\<open>A-Z\<close> and the Latin-1 capitals
  U+00C0 .. U+00DE (but not the multiplication sign U+00D7) move up by 32.
\<close>

definition toLower :: "char \<Rightarrow> char" where
  "toLower c =
     (if (65 \<le> code c \<and> code c \<le> 90) \<or> (192 \<le> code c \<and> code c \<le> 222 \<and> code c \<noteq> 215)
      then char_of (code c + 32) else c)"

definition toLowerCase :: "string \<Rightarrow> string" where
  "toLowerCase s = map toLower s"

text \<open>
  The canonical form that a pattern with the flag \<^verbatim>\<open>i\<close> compares: the upper-case
  character.  The two Latin-1 letters whose capital lies above U+00FF (U+00B5, U+00FF) are
  kept as they are; no other character of the range shares their canonical form.
\<close>

definition toUpper :: "char \<Rightarrow> char" where
  "toUpper c =
     (if (97 \<le> code c \<and> code c \<le> 122) \<or> (224 \<le> code c \<and> code c \<le> 254 \<and> code c \<noteq> 247)
      then char_of (code c - 32) else c)"

text \<open>\<^verbatim>\<open>s.includes(k)\<close>: \<open>k\<close> occurs in \<open>s\<close> as a contiguous substring.\<close>

primrec includesStr :: "string \<Rightarrow> string \<Rightarrow> bool" where
  "includesStr [] k = (k = [])"
| "includesStr (c # s) k = (prefix k (c # s) \<or> includesStr s k)"

text \<open>\<^verbatim>\<open>s.trim()\<close>.\<close>

definition trim :: "string \<Rightarrow> string" where
  "trim s = rev (dropWhile isSpace (rev (dropWhile isSpace s)))"

section \<open>Numbers read from strings\<close>

text \<open>
  \<^verbatim>\<open>parseInt(s)\<close> without a radix: leading white space is skipped, a sign is read, a
  prefix \<^verbatim>\<open>0x\<close> selects radix 16, and the longest run of digits of the radix is the
  value; no digit at all gives \<^verbatim>\<open>NaN\<close>.  The argument \<^verbatim>\<open>undefined\<close> (a capture
  group that did not take part in the match) gives \<^verbatim>\<open>NaN\<close> as well.  The result is
  the mathematical integer; JavaScript stores it as a double, which is the same number
  whenever its magnitude is below \<open>2 ^ 53\<close>.
\<close>

datatype jsnum = NaN | Num int

definition digitVal :: "char \<Rightarrow> nat" where
  "digitVal c =
     (if 48 \<le> code c \<and> code c \<le> 57 then code c - 48
      else if 97 \<le> code c \<and> code c \<le> 102 then code c - 87
      else code c - 55)"

definition isRadixDigit :: "nat \<Rightarrow> char \<Rightarrow> bool" where
  "isRadixDigit R c =
     (if R = 16
      then isDigit c \<or> (97 \<le> code c \<and> code c \<le> 102) \<or> (65 \<le> code c \<and> code c \<le> 70)
      else isDigit c)"

definition radixValue :: "nat \<Rightarrow> string \<Rightarrow> nat" where
  "radixValue R z = foldl (\<lambda>a c. a * R + digitVal c) 0 z"

definition parseIntString :: "string \<Rightarrow> jsnum" where
  "parseIntString s =
     (let s1 = dropWhile isSpace s;
          neg = (case s1 of [] \<Rightarrow> False | c # _ \<Rightarrow> c = CHR ''-'');
          s2 = (case s1 of [] \<Rightarrow> [] | c # t \<Rightarrow> if c = CHR ''-'' \<or> c = CHR ''+'' then t else s1);
          hex = (case s2 of
                   c # d # _ \<Rightarrow> c = CHR ''0'' \<and> (d = CHR ''x'' \<or> d = CHR ''X'')
                 | _ \<Rightarrow> False);
          R = (if hex then 16 else 10);
          s3 = (if hex then drop 2 s2 else s2);
          z = takeWhile (isRadixDigit R) s3
      in if z = [] then NaN
         else Num (if neg then - int (radixValue R z) else int (radixValue R z)))"

definition parseInt :: "string option \<Rightarrow> jsnum" where
  "parseInt v = (case v of None \<Rightarrow> NaN | Some s \<Rightarrow> parseIntString s)"

text \<open>
  \<^verbatim>\<open>parseFloat(s)\<close> on a string of digits and dots, the only strings the capture
  \<^verbatim>\<open>([\d.]+)\<close> yields: the longest prefix that is a decimal literal, kept as its
  integer digits and its fraction digits; \<^verbatim>\<open>NaN\<close> when both are empty.  (The double
  nearest to that decimal is what JavaScript stores.)
\<close>

datatype jsfloat = FNaN | Decimal string string

definition parseFloat :: "string \<Rightarrow> jsfloat" where
  "parseFloat s =
     (let ip = takeWhile isDigit s;
          r = dropWhile isDigit s;
          fp = (case r of [] \<Rightarrow> [] | c # t \<Rightarrow> if c = CHR ''.'' then takeWhile isDigit t else [])
      in if ip = [] \<and> fp = [] then FNaN else Decimal ip fp)"

section \<open>Regular expressions\<close>

text \<open>
  The patterns of the source use character classes, concatenation, alternation, the greedy
  quantifiers \<^verbatim>\<open>?\<close>, \<^verbatim>\<open>*\<close>, \<^verbatim>\<open>+\<close> (the last two on character classes only),
  capture groups, \<^verbatim>\<open>\b\<close>, \<^verbatim>\<open>^\<close> and \<^verbatim>\<open>$\<close>.  A literal character is a class of
  one member.
\<close>

datatype cset = Ch char | Rng char char | Digit | Space | NonSpace

datatype regex =
    Cls "cset list"
  | Seq regex regex
  | Alt regex regex
  | Opt regex
  | Star "cset list"
  | Plus "cset list"
  | Group nat regex
  | WordB
  | Bol
  | Eol
  | Empty

primrec seqs :: "regex list \<Rightarrow> regex" where
  "seqs [] = Empty"
| "seqs (r # rs) = Seq r (seqs rs)"

definition lit :: "string \<Rightarrow> regex list" where
  "lit s = map (\<lambda>c. Cls [Ch c]) s"

primrec in_cset :: "cset \<Rightarrow> char \<Rightarrow> bool" where
  "in_cset (Ch a) c = (c = a)"
| "in_cset (Rng lo hi) c = (code lo \<le> code c \<and> code c \<le> code hi)"
| "in_cset Digit c = isDigit c"
| "in_cset Space c = isSpace c"
| "in_cset NonSpace c = (\<not> isSpace c)"

text \<open>
  Membership in a class.  With the flag \<^verbatim>\<open>i\<close> (\<open>ic\<close>) a character belongs to the
  class when some member has the same canonical form; canonical forms pair a letter with
  its other case only, so that member is the character, its lower case or its upper case.
\<close>

definition in_class :: "bool \<Rightarrow> cset list \<Rightarrow> char \<Rightarrow> bool" where
  "in_class ic cs c =
     (list_ex (\<lambda>s. in_cset s c) cs
      \<or> (ic \<and> (list_ex (\<lambda>s. in_cset s (toLower c)) cs \<or> list_ex (\<lambda>s. in_cset s (toUpper c)) cs)))"

text \<open>
  A matcher state: the character before the current position (none at the start of the
  input), the rest of the input, and the captures made so far (newest first).
\<close>

type_synonym mstate = "char option \<times> string \<times> (nat \<times> string) list"

text \<open>
  A greedy \<^verbatim>\<open>*\<close> on a class: every end position, the longest run first, as backtracking
  visits them.
\<close>

primrec star_cls :: "bool \<Rightarrow> cset list \<Rightarrow> char option \<Rightarrow> string \<Rightarrow> (char option \<times> string) list" where
  "star_cls ic cs p [] = [(p, [])]"
| "star_cls ic cs p (c # r) =
     (if in_class ic cs c then star_cls ic cs (Some c) r @ [(p, c # r)] else [(p, c # r)])"

definition wordOpt :: "char option \<Rightarrow> bool" where
  "wordOpt p = (case p of None \<Rightarrow> False | Some c \<Rightarrow> isWordChar c)"

definition nextChar :: "string \<Rightarrow> char option" where
  "nextChar r = (case r of [] \<Rightarrow> None | c # _ \<Rightarrow> Some c)"

text \<open>
  The backtracking matcher: all the states in which a match of the pattern starting in the
  given state can end, in the order in which backtracking tries them.  The first element
  is the match that JavaScript reports.  An optional part that consumed nothing is
  discarded, as the empty check of the ECMAScript repeat matcher does.
\<close>

primrec rmatch :: "bool \<Rightarrow> regex \<Rightarrow> mstate \<Rightarrow> mstate list" where
  "rmatch ic (Cls cs) st =
     (case st of (p, r, caps) \<Rightarrow>
        (case r of [] \<Rightarrow> []
         | c # r' \<Rightarrow> if in_class ic cs c then [(Some c, r', caps)] else []))"
| "rmatch ic (Seq a b) st = concat (map (rmatch ic b) (rmatch ic a st))"
| "rmatch ic (Alt a b) st = rmatch ic a st @ rmatch ic b st"
| "rmatch ic (Opt a) st =
     filter (\<lambda>st'. length (fst (snd st')) < length (fst (snd st))) (rmatch ic a st) @ [st]"
| "rmatch ic (Star cs) st =
     (case st of (p, r, caps) \<Rightarrow> map (\<lambda>(p', r'). (p', r', caps)) (star_cls ic cs p r))"
| "rmatch ic (Plus cs) st =
     (case st of (p, r, caps) \<Rightarrow>
        (case r of [] \<Rightarrow> []
         | c # r' \<Rightarrow>
             if in_class ic cs c
             then map (\<lambda>(p', r'). (p', r', caps)) (star_cls ic cs (Some c) r') else []))"
| "rmatch ic (Group n a) st =
     map (\<lambda>st'. (fst st', fst (snd st'),
                 (n, take (length (fst (snd st)) - length (fst (snd st'))) (fst (snd st)))
                   # snd (snd st')))
         (rmatch ic a st)"
| "rmatch ic WordB st =
     (if wordOpt (fst st) = wordOpt (nextChar (fst (snd st))) then [] else [st])"
| "rmatch ic Bol st = (if fst st = None then [st] else [])"
| "rmatch ic Eol st = (if fst (snd st) = [] then [st] else [])"
| "rmatch ic Empty st = [st]"

text \<open>
  A match object: the text before the match, the matched text \<^verbatim>\<open>match[0]\<close>, the
  captures, and where the match ended (the last character consumed and the text after it).
\<close>

record jsmatch =
  before :: string
  whole :: string
  groups :: "(nat \<times> string) list"
  lastc :: "char option"
  after :: string

text \<open>\<^verbatim>\<open>match[n]\<close> for a capture group \<open>n\<close>; \<open>None\<close> is \<^verbatim>\<open>undefined\<close>.\<close>

definition grp :: "jsmatch \<Rightarrow> nat \<Rightarrow> string option" where
  "grp m n = map_of (groups m) n"

definition mkMatch :: "string \<Rightarrow> string \<Rightarrow> mstate \<Rightarrow> jsmatch" where
  "mkMatch sk r st =
     \<lparr>before = sk, whole = take (length r - length (fst (snd st))) r,
      groups = snd (snd st), lastc = fst st, after = fst (snd st)\<rparr>"

text \<open>
  The search for the leftmost match: the start positions are tried from left to right,
  \<open>sk\<close> being the text already skipped and \<open>p\<close> its last character.
\<close>

fun search :: "bool \<Rightarrow> regex \<Rightarrow> string \<Rightarrow> char option \<Rightarrow> string \<Rightarrow> jsmatch option" where
  "search ic re sk p [] =
     (case rmatch ic re (p, [], []) of [] \<Rightarrow> None | st # _ \<Rightarrow> Some (mkMatch sk [] st))"
| "search ic re sk p (c # r) =
     (case rmatch ic re (p, c # r, []) of
        [] \<Rightarrow> search ic re (sk @ [c]) (Some c) r
      | st # _ \<Rightarrow> Some (mkMatch sk (c # r) st))"

text \<open>\<^verbatim>\<open>s.match(re)\<close> for a pattern without the flag \<^verbatim>\<open>g\<close>; \<open>None\<close> is \<^verbatim>\<open>null\<close>.\<close>

definition match :: "bool \<Rightarrow> regex \<Rightarrow> string \<Rightarrow> jsmatch option" where
  "match ic re s = search ic re [] None s"

text \<open>\<^verbatim>\<open>re.test(s)\<close>.\<close>

definition test :: "regex \<Rightarrow> string \<Rightarrow> bool" where
  "test re s = (match False re s \<noteq> None)"

text \<open>\<^verbatim>\<open>s.replace(re, "")\<close> for a pattern without the flag \<^verbatim>\<open>g\<close>.\<close>

definition replaceEmpty :: "regex \<Rightarrow> string \<Rightarrow> string" where
  "replaceEmpty re s = (case match False re s of None \<Rightarrow> s | Some m \<Rightarrow> before m @ after m)"

subsection \<open>A match never moves backwards\<close>

lemma star_cls_suffix:
  "(p', r') \<in> set (star_cls ic cs p r) \<Longrightarrow> suffix r' r"
  by (induction r arbitrary: p) (auto simp: suffix_Cons split: if_splits)

lemma rmatch_suffix:
  "st' \<in> set (rmatch ic re st) \<Longrightarrow> suffix (fst (snd st')) (fst (snd st))"
proof (induction re arbitrary: st st')
  case (Cls cs)
  then show ?case
    by (auto simp: suffix_Cons split: prod.splits list.splits if_splits)
next
  case (Seq a b)
  then obtain mid where "mid \<in> set (rmatch ic a st)" "st' \<in> set (rmatch ic b mid)"
    by auto
  then show ?case
    using Seq.IH suffix_order.trans by blast
next
  case (Star cs)
  then show ?case
    by (auto split: prod.splits dest: star_cls_suffix)
next
  case (Plus cs)
  then show ?case
    by (auto simp: suffix_Cons split: prod.splits list.splits if_splits dest: star_cls_suffix)
qed (auto split: if_splits)

lemma rmatch_first_length:
  "rmatch ic re (p, r, caps) = st # sts \<Longrightarrow> length (fst (snd st)) \<le> length r"
  using rmatch_suffix [of st ic re "(p, r, caps)"] suffix_length_le by fastforce

lemma search_after_length:
  "search ic re sk p r = Some m \<Longrightarrow>
     length (after m) \<le> length r \<and> (whole m \<noteq> [] \<longrightarrow> length (after m) < length r)"
proof (induction r arbitrary: sk p)
  case Nil
  then show ?case
    by (auto simp: mkMatch_def split: list.splits dest: rmatch_first_length)
next
  case (Cons c r)
  show ?case
  proof (cases "rmatch ic re (p, c # r, [])")
    case Nil
    with Cons show ?thesis by fastforce
  next
    case (Cons st sts)
    then have "length (fst (snd st)) \<le> length (c # r)"
      by (rule rmatch_first_length)
    with Cons Cons.prems show ?thesis
      by (auto simp: mkMatch_def)
  qed
qed

text \<open>
  \<^verbatim>\<open>s.match(re) || []\<close> for a pattern with the flag \<^verbatim>\<open>g\<close>: the matched texts of all
  the matches, each search starting where the previous match ended (one character further
  after an empty match).  No match at all gives the empty list.
\<close>

function matchAllFrom :: "regex \<Rightarrow> char option \<Rightarrow> string \<Rightarrow> string list" where
  "matchAllFrom re p r =
     (case search False re [] p r of
        None \<Rightarrow> []
      | Some m \<Rightarrow>
          whole m #
            (if whole m = []
             then (case after m of [] \<Rightarrow> [] | c # r' \<Rightarrow> matchAllFrom re (Some c) r')
             else matchAllFrom re (lastc m) (after m)))"
  by pat_completeness auto
termination
proof (relation "measure (\<lambda>(re, p, r). length r)")
  show "wf (measure (\<lambda>(re, p, r). length r))"
    by simp
next
  fix re :: regex and p :: "char option" and r :: string and m c r'
  assume "search False re [] p r = Some m" "after m = c # r'"
  then show "((re, Some c, r'), (re, p, r)) \<in> measure (\<lambda>(re, p, r). length r)"
    using search_after_length [of False re "[]" p r m] by simp
next
  fix re :: regex and p :: "char option" and r :: string and m
  assume "search False re [] p r = Some m" "whole m \<noteq> []"
  then show "((re, lastc m, after m), (re, p, r)) \<in> measure (\<lambda>(re, p, r). length r)"
    using search_after_length [of False re "[]" p r m] by simp
qed

declare matchAllFrom.simps [simp del]

definition matchAll :: "regex \<Rightarrow> string \<Rightarrow> string list" where
  "matchAll re s = matchAllFrom re None s"

fun alts :: "regex list \<Rightarrow> regex" where
  "alts [] = Cls []"
| "alts [r] = r"
| "alts (r # rs) = Alt r (alts rs)"

text \<open>
  \<^verbatim>\<open>for (const pattern of patterns) { const match = s.match(pattern); if (match) { ...; break; } }\<close>:
  the match of the first pattern that matches.
\<close>

primrec firstMatch :: "regex list \<Rightarrow> string \<Rightarrow> jsmatch option" where
  "firstMatch [] s = None"
| "firstMatch (pat # pats) s =
     (case match False pat s of None \<Rightarrow> firstMatch pats s | Some m \<Rightarrow> Some m)"

section \<open>The structure request\<close>

text \<open>The record \<^verbatim>\<open>result\<close> of \<^verbatim>\<open>parseMaterialRequest\<close>, with the fields of the source.\<close>

record request =
  material_name :: string
  supercell_dims :: "jsnum list"
  structure_type :: "string option"
  lattice_parameter :: "jsfloat option"
  compound :: "string list option"
  source_type :: "string option"
  source_params :: "(string \<times> string) list"
  use_llm :: bool
  llm_provider :: "string option"
  llm_params :: "(string \<times> string) list"

definition defaults :: request where
  "defaults =
     \<lparr>material_name = ''Si'', supercell_dims = [Num 1, Num 1, Num 1], structure_type = None,
      lattice_parameter = None, compound = None, source_type = None, source_params = [],
      use_llm = False, llm_provider = None, llm_params = []\<rparr>"

section \<open>Supercell dimensions\<close>

definition digits :: regex where
  "digits = Plus [Digit]"

definition spaces :: regex where
  "spaces = Star [Space]"

definition supercellPatterns :: "regex list" where
  "supercellPatterns =
     [seqs [Group 1 digits, spaces, Cls [Ch CHR ''x'', Ch times_sign], spaces,
            Group 2 digits, spaces, Cls [Ch CHR ''x'', Ch times_sign], spaces,
            Group 3 digits],
      seqs (lit ''supercell'' @
            [spaces, Plus [Ch CHR '':'', Space],
             Group 1 digits, spaces, Cls [Ch CHR ''x'', Ch times_sign, Ch CHR '',''], spaces,
             Group 2 digits, spaces, Cls [Ch CHR ''x'', Ch times_sign, Ch CHR '',''], spaces,
             Group 3 digits]),
      seqs [Group 1 digits, Plus [Space], Group 2 digits, Plus [Space], Group 3 digits]]"

definition supercellStage :: "string \<Rightarrow> request \<Rightarrow> request" where
  "supercellStage textLower result =
     (case firstMatch supercellPatterns textLower of
        None \<Rightarrow> result
      | Some m \<Rightarrow>
          result\<lparr>supercell_dims := [parseInt (grp m 1), parseInt (grp m 2), parseInt (grp m 3)]\<rparr>)"

section \<open>Structure types\<close>

text \<open>\<^verbatim>\<open>Object.entries(structureKeywords)\<close>: the entries in the order of declaration.\<close>

definition structureKeywords :: "(string \<times> string list) list" where
  "structureKeywords =
     [(''fcc'', [''fcc'', ''face-centered cubic'', ''face centered cubic'']),
      (''bcc'', [''bcc'', ''body-centered cubic'', ''body centered cubic'']),
      (''hcp'', [''hcp'', ''hexagonal close-packed'', ''hexagonal close packed'']),
      (''diamond'', [''diamond'', ''diamond cubic'']),
      (''sc'', [''sc'', ''simple cubic'']),
      (''zincblende'', [''zincblende'', ''zinc blende'', ''sphalerite'']),
      (''rocksalt'', [''rocksalt'', ''rock salt'', ''nacl structure'']),
      (''wurtzite'', [''wurtzite'']),
      (''perovskite'', [''perovskite'']),
      (''rutile'', [''rutile''])]"

definition structureMatch :: "string \<Rightarrow> (string \<times> string list) option" where
  "structureMatch textLower =
     find (\<lambda>entry. list_ex (\<lambda>kw. includesStr textLower kw) (snd entry)) structureKeywords"

definition structureStage :: "string \<Rightarrow> request \<Rightarrow> request" where
  "structureStage textLower result =
     (case structureMatch textLower of
        None \<Rightarrow> result
      | Some entry \<Rightarrow> result\<lparr>structure_type := Some (fst entry)\<rparr>)"

section \<open>Lattice parameter\<close>

definition number :: regex where
  "number = Plus [Digit, Ch CHR ''.'']"

definition latticePatterns :: "regex list" where
  "latticePatterns =
     [seqs [Cls [Ch CHR ''a'', Ch CHR ''l''], spaces, Cls [Ch CHR ''=''], spaces, Group 1 number],
      seqs (lit ''lattice'' @
            [spaces, Opt (Alt (seqs (lit ''parameter'')) (seqs (lit ''constant''))), spaces,
             Opt (Cls [Ch CHR '':'', Ch CHR ''='']), spaces, Group 1 number]),
      seqs [Cls [Ch CHR ''a''], spaces, Cls [Ch CHR ''=''], spaces, Group 1 number]]"

definition latticeStage :: "string \<Rightarrow> request \<Rightarrow> request" where
  "latticeStage textLower result =
     (case firstMatch latticePatterns textLower of
        None \<Rightarrow> result
      | Some m \<Rightarrow>
          result\<lparr>lattice_parameter :=
            Some (case grp m 1 of None \<Rightarrow> FNaN | Some s \<Rightarrow> parseFloat s)\<rparr>)"

section \<open>Compounds\<close>

definition commonWords :: "string list" where
  "commonWords =
     [''the'', ''for'', ''get'', ''calculate'', ''energy'', ''force'',
      ''structure'', ''supercell'', ''bulk'', ''of'', ''a'', ''an'', ''in'', ''on'', ''at'']"

text \<open>\<^verbatim>\<open>commonWords.has(m.toLowerCase())\<close>.\<close>

definition isCommonWord :: "string \<Rightarrow> bool" where
  "isCommonWord m = (toLowerCase m \<in> set commonWords)"

text \<open>
  \<^verbatim>\<open>Object.entries(compoundMap)\<close>: each key with its \<^verbatim>\<open>name\<close>, its \<^verbatim>\<open>compound\<close>
  and its \<^verbatim>\<open>structure_type\<close> (absent for most entries).
\<close>

definition compoundMap :: "(string \<times> string \<times> string list \<times> string option) list" where
  "compoundMap =
     [(''nacl'', ''NaCl'', [''Na'', ''Cl''], None),
      (''sodium chloride'', ''NaCl'', [''Na'', ''Cl''], None),
      (''mgo'', ''MgO'', [''Mg'', ''O''], None),
      (''magnesium oxide'', ''MgO'', [''Mg'', ''O''], None),
      (''gan'', ''GaN'', [''Ga'', ''N''], None),
      (''gallium nitride'', ''GaN'', [''Ga'', ''N''], None),
      (''gap'', ''GaP'', [''Ga'', ''P''], None),
      (''gallium phosphide'', ''GaP'', [''Ga'', ''P''], None),
      (''zns'', ''ZnS'', [''Zn'', ''S''], None),
      (''zinc sulfide'', ''ZnS'', [''Zn'', ''S''], None),
      (''tio2'', ''TiO2'', [''Ti'', ''O''], None),
      (''titanium dioxide'', ''TiO2'', [''Ti'', ''O''], None),
      (''sio2'', ''SiO2'', [''Si'', ''O''], Some ''quartz''),
      (''silicon dioxide'', ''SiO2'', [''Si'', ''O''], Some ''quartz''),
      (''quartz'', ''SiO2'', [''Si'', ''O''], Some ''quartz''),
      (''catio3'', ''CaTiO3'', [''Ca'', ''Ti'', ''O''], None),
      (''calcium titanate'', ''CaTiO3'', [''Ca'', ''Ti'', ''O''], None)]"

text \<open>The first key of \<^verbatim>\<open>compoundMap\<close> that the lower-case text includes.\<close>

definition compoundLookup ::
  "string \<Rightarrow> (string \<times> string \<times> string list \<times> string option) option" where
  "compoundLookup textLower = find (\<lambda>entry. includesStr textLower (fst entry)) compoundMap"

text \<open>The body of that loop (lines 100 to 105): the record it returns.\<close>

definition compoundHit :: "string \<times> string \<times> string list \<times> string option \<Rightarrow> request \<Rightarrow> request" where
  "compoundHit entry result =
     (case entry of (key, name, els, stype) \<Rightarrow>
        (case stype of
           None \<Rightarrow> result\<lparr>material_name := name, compound := Some els\<rparr>
         | Some t \<Rightarrow> result\<lparr>material_name := name, compound := Some els, structure_type := Some t\<rparr>))"

definition upper :: cset where
  "upper = Rng CHR ''A'' CHR ''Z''"

definition lower :: cset where
  "lower = Rng CHR ''a'' CHR ''z''"

text \<open>\<^verbatim>\<open>/\b([A-Z][a-z]?[A-Z]?[a-z]?\d*)\b/g\<close>\<close>

definition compoundPattern :: regex where
  "compoundPattern =
     seqs [WordB,
           Group 1 (seqs [Cls [upper], Opt (Cls [lower]), Opt (Cls [upper]), Opt (Cls [lower]),
                          Star [Digit]]),
           WordB]"

text \<open>\<^verbatim>\<open>/[A-Z][a-z]?/g\<close>\<close>

definition elementPattern :: regex where
  "elementPattern = seqs [Cls [upper], Opt (Cls [lower])]"

text \<open>
  The loop over \<^verbatim>\<open>compoundMatches\<close> (lines 114 to 129).  A \<^verbatim>\<open>break\<close> returns the
  record; otherwise the loop goes on with the next match.
\<close>

fun scanCompounds :: "string list \<Rightarrow> request \<Rightarrow> request" where
  "scanCompounds [] result = result"
| "scanCompounds (m # ms) result =
     (if \<not> isCommonWord m then
        (if test (Cls [Digit]) m then
           (let result1 = result\<lparr>material_name := m\<rparr>;
                elements = matchAll elementPattern m
            in if length elements \<ge> 2 then result1\<lparr>compound := Some elements\<rparr>
               else scanCompounds ms result1)
         else if length m = 2 \<and> test (Cls [upper]) [m ! 0] \<and> test (Cls [upper]) [m ! 1] then
           result\<lparr>material_name := m, compound := Some [[m ! 0], [m ! 1]]\<rparr>
         else scanCompounds ms result)
      else scanCompounds ms result)"

definition formulaStage :: "string \<Rightarrow> request \<Rightarrow> request" where
  "formulaStage txt result =
     (if compound result = None then scanCompounds (matchAll compoundPattern txt) result
      else result)"

section \<open>Elements\<close>

definition elementMap :: "(string \<times> string) list" where
  "elementMap =
     [(''silicon'', ''Si''), (''si'', ''Si''),
      (''aluminum'', ''Al''), (''aluminium'', ''Al''), (''al'', ''Al''),
      (''gold'', ''Au''), (''au'', ''Au''),
      (''copper'', ''Cu''), (''cu'', ''Cu''),
      (''iron'', ''Fe''), (''fe'', ''Fe''),
      (''titanium'', ''Ti''), (''ti'', ''Ti''),
      (''magnesium'', ''Mg''), (''mg'', ''Mg''),
      (''nickel'', ''Ni''), (''ni'', ''Ni''),
      (''zinc'', ''Zn''), (''zn'', ''Zn''),
      (''carbon'', ''C''), (''c'', ''C''),
      (''germanium'', ''Ge''), (''ge'', ''Ge''),
      (''chromium'', ''Cr''), (''cr'', ''Cr''),
      (''molybdenum'', ''Mo''), (''mo'', ''Mo''),
      (''tungsten'', ''W''), (''w'', ''W''),
      (''vanadium'', ''V''), (''v'', ''V''),
      (''cobalt'', ''Co''), (''co'', ''Co''),
      (''palladium'', ''Pd''), (''pd'', ''Pd''),
      (''platinum'', ''Pt''), (''pt'', ''Pt''),
      (''silver'', ''Ag''), (''ag'', ''Ag''),
      (''beryllium'', ''Be''), (''be'', ''Be''),
      (''zirconium'', ''Zr''), (''zr'', ''Zr'')]"

definition elementLookup :: "string \<Rightarrow> (string \<times> string) option" where
  "elementLookup textLower = find (\<lambda>entry. includesStr textLower (fst entry)) elementMap"

text \<open>\<^verbatim>\<open>/\b([A-Z][a-z]?)\b/g\<close>\<close>

definition symbolPattern :: regex where
  "symbolPattern = seqs [WordB, Group 1 (seqs [Cls [upper], Opt (Cls [lower])]), WordB]"

definition elementStage :: "string \<Rightarrow> string \<Rightarrow> request \<Rightarrow> request" where
  "elementStage txt textLower result =
     (let result1 = (case elementLookup textLower of
                       None \<Rightarrow> result
                     | Some entry \<Rightarrow> result\<lparr>material_name := snd entry\<rparr>)
      in if material_name result1 = ''Si'' then
           (let elementSymbols = matchAll symbolPattern txt;
                potentialElements = filter (\<lambda>m. \<not> isCommonWord m \<and> length m \<le> 2) elementSymbols
            in case potentialElements of
                 [] \<Rightarrow> result1
               | e # _ \<Rightarrow> result1\<lparr>material_name := e\<rparr>)
         else result1)"

section \<open>External sources\<close>

text \<open>\<^verbatim>\<open>/\bmp-\d+\b/i\<close>\<close>

definition mpPattern :: regex where
  "mpPattern = seqs ([WordB] @ lit ''mp-'' @ [digits, WordB])"

text \<open>\<^verbatim>\<open>/\bcod-?\d+\b/i\<close>\<close>

definition codPattern :: regex where
  "codPattern = seqs ([WordB] @ lit ''cod'' @ [Opt (Cls [Ch CHR ''-'']), digits, WordB])"

text \<open>\<^verbatim>\<open>/^cod-?/\<close>\<close>

definition codPrefix :: regex where
  "codPrefix = seqs ([Bol] @ lit ''cod'' @ [Opt (Cls [Ch CHR ''-''])])"

text \<open>\<^verbatim>\<open>/https?:\/\/\S+/\<close>\<close>

definition urlPattern :: regex where
  "urlPattern = seqs (lit ''http'' @ [Opt (Cls [Ch CHR ''s''])] @ lit ''://'' @ [Plus [NonSpace]])"

text \<open>\<^verbatim>\<open>/[\/\\]/\<close>: a slash or a backslash (U+005C).\<close>

definition separatorPattern :: regex where
  "separatorPattern = Cls [Ch CHR ''/'', Ch (CHR 0x5C)]"

text \<open>\<^verbatim>\<open>/\.(cif|xyz|vasp|poscar)$/\<close>\<close>

definition extensionPattern :: regex where
  "extensionPattern =
     seqs [Cls [Ch CHR ''.''],
           Group 1 (alts [seqs (lit ''cif''), seqs (lit ''xyz''), seqs (lit ''vasp''),
                          seqs (lit ''poscar'')]),
           Eol]"

definition sourceStage :: "string \<Rightarrow> request \<Rightarrow> request" where
  "sourceStage txt result =
     (case match True mpPattern txt of
        Some mpMatch \<Rightarrow> result\<lparr>material_name := whole mpMatch, source_type := Some ''mp''\<rparr>
      | None \<Rightarrow>
     (case match True codPattern txt of
        Some codMatch \<Rightarrow>
          result\<lparr>material_name := replaceEmpty codPrefix (whole codMatch),
                 source_type := Some ''cod''\<rparr>
      | None \<Rightarrow>
     (case match False urlPattern txt of
        Some urlMatch \<Rightarrow> result\<lparr>material_name := whole urlMatch, source_type := Some ''url''\<rparr>
      | None \<Rightarrow>
     (if test separatorPattern txt \<or> test extensionPattern txt
      then result\<lparr>material_name := trim txt, source_type := Some ''file''\<rparr>
      else result))))"

section \<open>The interpreter\<close>

text \<open>
  \<^verbatim>\<open>parseMaterialRequest(text)\<close>.  The three extraction stages run first; a key of
  \<^verbatim>\<open>compoundMap\<close> in the lower-case text returns at once (line 105); otherwise the
  formula scan, the element stage (only when no compound was found) and the detection of
  external sources follow.
\<close>

definition parseMaterialRequest :: "string \<Rightarrow> request" where
  "parseMaterialRequest txt =
     (let textLower = toLowerCase txt;
          result = latticeStage textLower (structureStage textLower (supercellStage textLower defaults))
      in case compoundLookup textLower of
           Some entry \<Rightarrow> compoundHit entry result
         | None \<Rightarrow>
             (let result1 = formulaStage txt result;
                  result2 = (if compound result1 = None then elementStage txt textLower result1
                             else result1)
              in sourceStage txt result2))"

section \<open>Notions used in the proofs\<close>

text \<open>
  A declarative reading of a pattern: \<open>den ic re w cl\<close> says that the pattern can
  consume the text \<open>w\<close> while recording the captures \<open>cl\<close> (newest first).  The
  assertions \<^verbatim>\<open>\b\<close>, \<^verbatim>\<open>^\<close> and \<^verbatim>\<open>$\<close> consume nothing; their conditions on the
  context are not part of this reading.
\<close>

primrec den :: "bool \<Rightarrow> regex \<Rightarrow> string \<Rightarrow> (nat \<times> string) list \<Rightarrow> bool" where
  "den ic (Cls cs) w cl = (cl = [] \<and> (\<exists>c. w = [c] \<and> in_class ic cs c))"
| "den ic (Seq a b) w cl =
     (\<exists>u v ca cb. w = u @ v \<and> cl = cb @ ca \<and> den ic a u ca \<and> den ic b v cb)"
| "den ic (Alt a b) w cl = (den ic a w cl \<or> den ic b w cl)"
| "den ic (Opt a) w cl = ((w = [] \<and> cl = []) \<or> den ic a w cl)"
| "den ic (Star cs) w cl = (cl = [] \<and> list_all (in_class ic cs) w)"
| "den ic (Plus cs) w cl = (cl = [] \<and> w \<noteq> [] \<and> list_all (in_class ic cs) w)"
| "den ic (Group n a) w cl = (\<exists>ca. cl = (n, w) # ca \<and> den ic a w ca)"
| "den ic WordB w cl = (w = [] \<and> cl = [])"
| "den ic Bol w cl = (w = [] \<and> cl = [])"
| "den ic Eol w cl = (w = [] \<and> cl = [])"
| "den ic Empty w cl = (w = [] \<and> cl = [])"


text \<open>
  \<open>extracted\<close> is the record after the three extraction stages (line 72 of the source),
  \<open>beforeSource\<close> the record as it stands when the detection of external sources starts
  (line 175).
\<close>

definition extracted :: "string \<Rightarrow> request" where
  "extracted t =
     latticeStage (toLowerCase t)
       (structureStage (toLowerCase t) (supercellStage (toLowerCase t) defaults))"

definition beforeSource :: "string \<Rightarrow> request" where
  "beforeSource t =
     (let result1 = formulaStage t (extracted t)
      in if compound result1 = None then elementStage t (toLowerCase t) result1 else result1)"

text \<open>The letters \<^verbatim>\<open>A-Za-z\<close>.\<close>

definition isLetter :: "char \<Rightarrow> bool" where
  "isLetter c = ((65 \<le> code c \<and> code c \<le> 90) \<or> (97 \<le> code c \<and> code c \<le> 122))"

text \<open>
  The capital letters below U+0100 with their small letters, as \<open>toLower\<close> pairs them,
  and the same pairs read from small to capital.
\<close>

definition lowerTable :: "(char \<times> char) list" where
  "lowerTable = zip
     (''ABCDEFGHIJKLMNOPQRSTUVWXYZ''
      @ [CHR 0xC0, CHR 0xC1, CHR 0xC2, CHR 0xC3, CHR 0xC4, CHR 0xC5, CHR 0xC6, CHR 0xC7,
         CHR 0xC8, CHR 0xC9, CHR 0xCA, CHR 0xCB, CHR 0xCC, CHR 0xCD, CHR 0xCE, CHR 0xCF,
         CHR 0xD0, CHR 0xD1, CHR 0xD2, CHR 0xD3, CHR 0xD4, CHR 0xD5, CHR 0xD6]
      @ [CHR 0xD8, CHR 0xD9, CHR 0xDA, CHR 0xDB, CHR 0xDC, CHR 0xDD, CHR 0xDE])
     (''abcdefghijklmnopqrstuvwxyz''
      @ [CHR 0xE0, CHR 0xE1, CHR 0xE2, CHR 0xE3, CHR 0xE4, CHR 0xE5, CHR 0xE6, CHR 0xE7,
         CHR 0xE8, CHR 0xE9, CHR 0xEA, CHR 0xEB, CHR 0xEC, CHR 0xED, CHR 0xEE, CHR 0xEF,
         CHR 0xF0, CHR 0xF1, CHR 0xF2, CHR 0xF3, CHR 0xF4, CHR 0xF5, CHR 0xF6]
      @ [CHR 0xF8, CHR 0xF9, CHR 0xFA, CHR 0xFB, CHR 0xFC, CHR 0xFD, CHR 0xFE])"

definition upperTable :: "(char \<times> char) list" where
  "upperTable = map (\<lambda>e. (snd e, fst e)) lowerTable"

section \<open>What a match consists of\<close>

text \<open>
  Every state the matcher returns is covered by the declarative reading \<open>den\<close>: the text
  consumed and the captures recorded are among those the pattern allows.
\<close>

lemma star_cls_den:
  "(p', r') \<in> set (star_cls ic cs p r) \<Longrightarrow> \<exists>w. r = w @ r' \<and> list_all (in_class ic cs) w"
proof (induction r arbitrary: p)
  case Nil
  then show ?case by simp
next
  case (Cons c r)
  show ?case
  proof (cases "in_class ic cs c \<and> (p', r') \<in> set (star_cls ic cs (Some c) r)")
    case True
    then obtain w where "r = w @ r'" "list_all (in_class ic cs) w"
      using Cons.IH by blast
    with True have "c # r = (c # w) @ r' \<and> list_all (in_class ic cs) (c # w)"
      by simp
    then show ?thesis by blast
  next
    case False
    with Cons.prems have "r' = c # r"
      by (auto split: if_splits)
    then show ?thesis by simp
  qed
qed

lemma rmatch_den:
  "st' \<in> set (rmatch ic re st) \<Longrightarrow>
     \<exists>w cl. fst (snd st) = w @ fst (snd st') \<and> snd (snd st') = cl @ snd (snd st) \<and> den ic re w cl"
proof (induction re arbitrary: st st')
  case (Cls cs)
  then show ?case
    by (auto split: prod.splits list.splits if_splits)
next
  case (Seq a b)
  then obtain mid where mid: "mid \<in> set (rmatch ic a st)" "st' \<in> set (rmatch ic b mid)"
    by auto
  from Seq.IH(1) [OF mid(1)] obtain u ca where
    a: "fst (snd st) = u @ fst (snd mid)" "snd (snd mid) = ca @ snd (snd st)" "den ic a u ca"
    by blast
  from Seq.IH(2) [OF mid(2)] obtain v cb where
    b: "fst (snd mid) = v @ fst (snd st')" "snd (snd st') = cb @ snd (snd mid)" "den ic b v cb"
    by blast
  from a b have "fst (snd st) = (u @ v) @ fst (snd st') \<and> snd (snd st') = (cb @ ca) @ snd (snd st)
      \<and> den ic (Seq a b) (u @ v) (cb @ ca)"
    by auto
  then show ?case by blast
next
  case (Alt a b)
  then have "st' \<in> set (rmatch ic a st) \<or> st' \<in> set (rmatch ic b st)"
    by simp
  then show ?case
    using Alt.IH(1) [of st' st] Alt.IH(2) [of st' st] by (elim disjE) (simp, blast)+
next
  case (Opt a)
  then have "st' \<in> set (rmatch ic a st) \<or> st' = st"
    by auto
  then show ?case
  proof
    assume "st' \<in> set (rmatch ic a st)"
    from Opt.IH [OF this] show ?thesis by (simp, blast)
  next
    assume "st' = st"
    then show ?thesis by simp
  qed
next
  case (Star cs)
  then show ?case
    by (auto split: prod.splits dest: star_cls_den)
next
  case (Plus cs)
  obtain p r caps where st: "st = (p, r, caps)" by (cases st)
  with Plus obtain c r0 p' r' where
    c: "r = c # r0" "in_class ic cs c" "(p', r') \<in> set (star_cls ic cs (Some c) r0)" "st' = (p', r', caps)"
    by (auto split: list.splits if_splits)
  from star_cls_den [OF c(3)] obtain w where "r0 = w @ r'" "list_all (in_class ic cs) w"
    by blast
  with c st have "fst (snd st) = (c # w) @ fst (snd st') \<and> snd (snd st') = [] @ snd (snd st)
      \<and> den ic (Plus cs) (c # w) []"
    by simp
  then show ?case by blast
next
  case (Group n a)
  then obtain mid where mid: "mid \<in> set (rmatch ic a st)"
    "st' = (fst mid, fst (snd mid), (n, take (length (fst (snd st)) - length (fst (snd mid))) (fst (snd st))) # snd (snd mid))"
    by auto
  from Group.IH [OF mid(1)] obtain w cl where
    a: "fst (snd st) = w @ fst (snd mid)" "snd (snd mid) = cl @ snd (snd st)" "den ic a w cl"
    by blast
  with mid have "fst (snd st) = w @ fst (snd st') \<and> snd (snd st') = ((n, w) # cl) @ snd (snd st)
      \<and> den ic (Group n a) w ((n, w) # cl)"
    by simp
  then show ?case by blast
next
  case WordB
  then show ?case by (simp split: if_splits)
next
  case Bol
  then show ?case by (simp split: if_splits)
next
  case Eol
  then show ?case by (simp split: if_splits)
next
  case Empty
  then show ?case by simp
qed

lemma search_den:
  "search ic re sk p r = Some m \<Longrightarrow>
     (\<exists>u. before m = sk @ u \<and> r = u @ whole m @ after m) \<and> den ic re (whole m) (groups m)"
proof (induction r arbitrary: sk p)
  case Nil
  then obtain st sts where st: "rmatch ic re (p, [], []) = st # sts" "m = mkMatch sk [] st"
    by (auto split: list.splits)
  from rmatch_den [of st ic re "(p, [], [])"] st(1) obtain w cl where
    "[] = w @ fst (snd st)" "snd (snd st) = cl" "den ic re w cl"
    by auto
  with st show ?case by (simp add: mkMatch_def)
next
  case (Cons c r)
  show ?case
  proof (cases "rmatch ic re (p, c # r, [])")
    case Nil
    with Cons.prems have "search ic re (sk @ [c]) (Some c) r = Some m" by simp
    from Cons.IH [OF this] show ?thesis by auto
  next
    case (Cons st sts)
    with Cons.prems have m: "m = mkMatch sk (c # r) st" by simp
    from rmatch_den [of st ic re "(p, c # r, [])"] Cons obtain w cl where
      "c # r = w @ fst (snd st)" "snd (snd st) = cl" "den ic re w cl"
      by auto
    with m show ?thesis by (simp add: mkMatch_def)
  qed
qed

lemma match_den:
  "match ic re s = Some m \<Longrightarrow> s = before m @ whole m @ after m \<and> den ic re (whole m) (groups m)"
  using search_den [of ic re "[]" None s m] by (auto simp: match_def)


section \<open>Substrings and the structure table\<close>

lemma includesStr_sublist: "includesStr s k = sublist k s"
  by (induction s) (simp_all add: sublist_Cons_right)

lemma includesStr_iff: "includesStr s k \<longleftrightarrow> (\<exists>u v. s = u @ k @ v)"
  by (simp add: includesStr_sublist sublist_def)

lemma structureKeywords_distinct: "distinct (map fst structureKeywords)"
  by (simp add: structureKeywords_def)

section \<open>Characters\<close>

lemma code_char_of: "n < 256 \<Longrightarrow> code (char_of n) = n"
  by (simp add: code_def)

lemma code_less: "code c < 256"
  by (simp add: code_def)

lemma isDigit_toLower [simp]: "isDigit (toLower c) = isDigit c"
  using code_less [of c] by (auto simp: toLower_def isDigit_def code_char_of)

lemma isDigit_toUpper [simp]: "isDigit (toUpper c) = isDigit c"
  using code_less [of c] by (auto simp: toUpper_def isDigit_def code_char_of)

lemma in_class_Digit [simp]: "in_class ic [Digit] c = isDigit c"
  by (auto simp: in_class_def)

lemma in_class_Ch [simp]: "in_class False [Ch a] c = (c = a)"
  by (auto simp: in_class_def)

lemma code_inj: "code a = code b \<Longrightarrow> a = b"
  by (simp add: code_def)

lemma isDigit_not_dash: "isDigit c \<Longrightarrow> c \<noteq> CHR ''-''"
  by (auto simp: isDigit_def code_def)

lemma in_class_Digit_eq [simp]: "in_class ic [Digit] = isDigit"
  by (rule ext) simp

lemma char_eq_code: "(a = b) = (code a = code b)"
  by (auto simp: code_def)

lemma code_toLower:
  "code (toLower c) =
     (if (65 \<le> code c \<and> code c \<le> 90) \<or> (192 \<le> code c \<and> code c \<le> 222 \<and> code c \<noteq> 215)
      then code c + 32 else code c)"
  by (auto simp: toLower_def code_char_of)

lemma code_toUpper:
  "code (toUpper c) =
     (if (97 \<le> code c \<and> code c \<le> 122) \<or> (224 \<le> code c \<and> code c \<le> 254 \<and> code c \<noteq> 247)
      then code c - 32 else code c)"
  by (auto simp: toUpper_def code_char_of)

lemma code_dash: "code CHR ''-'' = 45"
  by (simp add: code_def)

lemma in_class_dash: "in_class True [Ch CHR ''-''] c \<Longrightarrow> c = CHR ''-''"
  by (auto simp: in_class_def char_eq_code code_toLower code_toUpper code_dash split: if_splits)

section \<open>Evaluating the character tests\<close>

text \<open>
  Equations that evaluate the character tests by comparing characters with the members of
  an explicit list, in place of arithmetic on code points.
\<close>

lemma code_in_set:
  "list_all (\<lambda>n. n < 256) ns \<Longrightarrow> (code c \<in> set ns) = (c \<in> set (map char_of ns))"
proof
  assume "list_all (\<lambda>n. n < 256) ns" "code c \<in> set ns"
  then have "char_of (code c) \<in> char_of ` set ns" by blast
  then show "c \<in> set (map char_of ns)" by (simp add: code_def)
next
  assume a: "list_all (\<lambda>n. n < 256) ns" "c \<in> set (map char_of ns)"
  then obtain n where "n \<in> set ns" "c = char_of n" by auto
  with a(1) show "code c \<in> set ns" by (auto simp: code_def list_all_iff)
qed

lemma code_in_range:
  "b < 256 \<Longrightarrow> (a \<le> code c \<and> code c \<le> b) = (c \<in> set (map char_of [a..<Suc b]))"
proof -
  assume "b < 256"
  then have "list_all (\<lambda>n. n < 256) [a..<Suc b]"
    by (auto simp: list_all_iff)
  moreover have "(a \<le> code c \<and> code c \<le> b) = (code c \<in> set [a..<Suc b])"
    by auto
  ultimately show ?thesis
    using code_in_set [of "[a..<Suc b]" c] by blast
qed

lemma digit_chars: "map char_of [48..<Suc 57] = ''0123456789''"
  by code_simp

lemma capital_chars: "map char_of [65..<Suc 90] = ''ABCDEFGHIJKLMNOPQRSTUVWXYZ''"
  by code_simp

lemma small_chars: "map char_of [97..<Suc 122] = ''abcdefghijklmnopqrstuvwxyz''"
  by code_simp

lemma space_chars: "map char_of [9, 10, 11, 12, 13, 32, 160 :: nat] = [CHR 0x09, CHR 0x0A, CHR 0x0B, CHR 0x0C, CHR 0x0D, CHR 0x20, CHR 0xA0]"
  by code_simp

lemma isDigit_code [code]: "isDigit c = (c \<in> set ''0123456789'')"
  unfolding isDigit_def using code_in_range [of 57 48 c] by (simp only: digit_chars)

lemma isSpace_code [code]: "isSpace c = (c \<in> set [CHR 0x09, CHR 0x0A, CHR 0x0B, CHR 0x0C, CHR 0x0D, CHR 0x20, CHR 0xA0])"
proof -
  have "isSpace c = (code c \<in> set [9, 10, 11, 12, 13, 32, 160])"
    by (simp add: isSpace_def)
  also have "\<dots> = (c \<in> set (map char_of [9, 10, 11, 12, 13, 32, 160 :: nat]))"
    by (rule code_in_set) simp
  finally show ?thesis by (simp only: space_chars)
qed

lemma capital_code: "(65 \<le> code c \<and> code c \<le> 90) = (c \<in> set ''ABCDEFGHIJKLMNOPQRSTUVWXYZ'')"
  using code_in_range [of 90 65 c] by (simp only: capital_chars)

lemma small_code: "(97 \<le> code c \<and> code c \<le> 122) = (c \<in> set ''abcdefghijklmnopqrstuvwxyz'')"
  using code_in_range [of 122 97 c] by (simp only: small_chars)

lemma digit_code: "(48 \<le> code c \<and> code c \<le> 57) = (c \<in> set ''0123456789'')"
  using code_in_range [of 57 48 c] by (simp only: digit_chars)

lemma isWordChar_code [code]:
  "isWordChar c =
     (c \<in> set ''ABCDEFGHIJKLMNOPQRSTUVWXYZ'' \<or> c \<in> set ''abcdefghijklmnopqrstuvwxyz''
      \<or> c \<in> set ''0123456789'' \<or> c = CHR ''_'')"
proof -
  have "(code c = 95) = (c = CHR ''_'')"
    by (simp add: char_eq_code) (simp add: code_def)
  then show ?thesis
    unfolding isWordChar_def by (simp only: capital_code small_code digit_code)
qed

lemma in_cset_code [code]:
  "in_cset (Ch a) c = (c = a)"
  "in_cset (Rng lo hi) c =
     (if lo = CHR ''A'' \<and> hi = CHR ''Z'' then c \<in> set ''ABCDEFGHIJKLMNOPQRSTUVWXYZ''
      else if lo = CHR ''a'' \<and> hi = CHR ''z'' then c \<in> set ''abcdefghijklmnopqrstuvwxyz''
      else code lo \<le> code c \<and> code c \<le> code hi)"
  "in_cset Digit c = isDigit c"
  "in_cset Space c = isSpace c"
  "in_cset NonSpace c = (\<not> isSpace c)"
proof -
  have AZ: "code CHR ''A'' = 65" "code CHR ''Z'' = 90" "code CHR ''a'' = 97" "code CHR ''z'' = 122"
    by (simp_all add: code_def)
  show "in_cset (Rng lo hi) c =
     (if lo = CHR ''A'' \<and> hi = CHR ''Z'' then c \<in> set ''ABCDEFGHIJKLMNOPQRSTUVWXYZ''
      else if lo = CHR ''a'' \<and> hi = CHR ''z'' then c \<in> set ''abcdefghijklmnopqrstuvwxyz''
      else code lo \<le> code c \<and> code c \<le> code hi)"
  proof (cases "lo = CHR ''A'' \<and> hi = CHR ''Z''")
    case True
    then show ?thesis
      using capital_code [of c] by (simp only: in_cset.simps AZ if_True simp_thms)
  next
    case notAZ: False
    show ?thesis
    proof (cases "lo = CHR ''a'' \<and> hi = CHR ''z''")
      case True
      with notAZ show ?thesis
        using small_code [of c] by (simp only: in_cset.simps AZ if_True if_False simp_thms)
    next
      case False
      with notAZ show ?thesis
        by (simp only: in_cset.simps if_False simp_thms)
    qed
  qed
qed simp_all

lemma lower_range:
  "((65 \<le> n \<and> n \<le> 90) \<or> (192 \<le> n \<and> n \<le> 222 \<and> n \<noteq> 215))
     = (n \<in> set ([65..<Suc 90] @ [192..<Suc 214] @ [216..<Suc 222]))" for n :: nat
  by (simp only: set_append set_upt Un_iff atLeastLessThan_iff) arith

lemma upper_range:
  "((97 \<le> n \<and> n \<le> 122) \<or> (224 \<le> n \<and> n \<le> 254 \<and> n \<noteq> 247))
     = (n \<in> set ([97..<Suc 122] @ [224..<Suc 246] @ [248..<Suc 254]))" for n :: nat
  by (simp only: set_append set_upt Un_iff atLeastLessThan_iff) arith

lemma lowerTable_keys:
  "map char_of ([65..<Suc 90] @ [192..<Suc 214] @ [216..<Suc 222]) = map fst lowerTable"
  by code_simp

lemma lowerTable_sound: "list_all (\<lambda>e. toLower (fst e) = snd e) lowerTable"
  by code_simp

lemma upperTable_keys:
  "map char_of ([97..<Suc 122] @ [224..<Suc 246] @ [248..<Suc 254]) = map fst upperTable"
  by code_simp

lemma upperTable_sound: "list_all (\<lambda>e. toUpper (fst e) = snd e) upperTable"
  by code_simp

lemma toLower_code [code]:
  "toLower c = (case map_of lowerTable c of None \<Rightarrow> c | Some l \<Rightarrow> l)"
proof (cases "map_of lowerTable c")
  case None
  then have "c \<notin> set (map fst lowerTable)"
    by (simp only: map_of_eq_None_iff set_map) simp
  then have "c \<notin> set (map char_of ([65..<Suc 90] @ [192..<Suc 214] @ [216..<Suc 222]))"
    by (simp only: lowerTable_keys simp_thms)
  moreover have "(code c \<in> set ([65..<Suc 90] @ [192..<Suc 214] @ [216..<Suc 222]))
      = (c \<in> set (map char_of ([65..<Suc 90] @ [192..<Suc 214] @ [216..<Suc 222])))"
    by (rule code_in_set) (simp add: list_all_iff)
  ultimately have "code c \<notin> set ([65..<Suc 90] @ [192..<Suc 214] @ [216..<Suc 222])"
    by blast
  then have "toLower c = c"
    unfolding toLower_def by (simp only: lower_range if_False)
  with None show ?thesis by simp
next
  case (Some l)
  then have "(c, l) \<in> set lowerTable"
    by (rule map_of_SomeD)
  with lowerTable_sound have "toLower c = l"
    by (auto simp: list_all_iff)
  with Some show ?thesis by simp
qed

lemma toUpper_code [code]:
  "toUpper c = (case map_of upperTable c of None \<Rightarrow> c | Some u \<Rightarrow> u)"
proof (cases "map_of upperTable c")
  case None
  then have "c \<notin> set (map fst upperTable)"
    by (simp only: map_of_eq_None_iff set_map) simp
  then have "c \<notin> set (map char_of ([97..<Suc 122] @ [224..<Suc 246] @ [248..<Suc 254]))"
    by (simp only: upperTable_keys simp_thms)
  moreover have "(code c \<in> set ([97..<Suc 122] @ [224..<Suc 246] @ [248..<Suc 254]))
      = (c \<in> set (map char_of ([97..<Suc 122] @ [224..<Suc 246] @ [248..<Suc 254])))"
    by (rule code_in_set) (simp add: list_all_iff)
  ultimately have "code c \<notin> set ([97..<Suc 122] @ [224..<Suc 246] @ [248..<Suc 254])"
    by blast
  then have "toUpper c = c"
    unfolding toUpper_def by (simp only: upper_range if_False)
  with None show ?thesis by simp
next
  case (Some u)
  then have "(c, u) \<in> set upperTable"
    by (rule map_of_SomeD)
  with upperTable_sound have "toUpper c = u"
    by (auto simp: list_all_iff)
  with Some show ?thesis by simp
qed

section \<open>The stages, field by field\<close>

subsection \<open>Fields a stage leaves alone\<close>

lemma supercellStage_fields [simp]:
  "material_name (supercellStage low r) = material_name r"
  "structure_type (supercellStage low r) = structure_type r"
  "lattice_parameter (supercellStage low r) = lattice_parameter r"
  "compound (supercellStage low r) = compound r"
  "source_type (supercellStage low r) = source_type r"
  "source_params (supercellStage low r) = source_params r"
  "use_llm (supercellStage low r) = use_llm r"
  "llm_provider (supercellStage low r) = llm_provider r"
  "llm_params (supercellStage low r) = llm_params r"
  by (simp_all add: supercellStage_def split: option.splits)

lemma structureStage_fields [simp]:
  "material_name (structureStage low r) = material_name r"
  "supercell_dims (structureStage low r) = supercell_dims r"
  "lattice_parameter (structureStage low r) = lattice_parameter r"
  "compound (structureStage low r) = compound r"
  "source_type (structureStage low r) = source_type r"
  "source_params (structureStage low r) = source_params r"
  "use_llm (structureStage low r) = use_llm r"
  "llm_provider (structureStage low r) = llm_provider r"
  "llm_params (structureStage low r) = llm_params r"
  by (simp_all add: structureStage_def split: option.splits)

lemma latticeStage_fields [simp]:
  "material_name (latticeStage low r) = material_name r"
  "supercell_dims (latticeStage low r) = supercell_dims r"
  "structure_type (latticeStage low r) = structure_type r"
  "compound (latticeStage low r) = compound r"
  "source_type (latticeStage low r) = source_type r"
  "source_params (latticeStage low r) = source_params r"
  "use_llm (latticeStage low r) = use_llm r"
  "llm_provider (latticeStage low r) = llm_provider r"
  "llm_params (latticeStage low r) = llm_params r"
  by (simp_all add: latticeStage_def split: option.splits)

lemma compoundHit_fields [simp]:
  "material_name (compoundHit entry r) = fst (snd entry)"
  "compound (compoundHit entry r) = Some (fst (snd (snd entry)))"
  "supercell_dims (compoundHit entry r) = supercell_dims r"
  "lattice_parameter (compoundHit entry r) = lattice_parameter r"
  "source_type (compoundHit entry r) = source_type r"
  "source_params (compoundHit entry r) = source_params r"
  "use_llm (compoundHit entry r) = use_llm r"
  "llm_provider (compoundHit entry r) = llm_provider r"
  "llm_params (compoundHit entry r) = llm_params r"
  by (simp_all add: compoundHit_def split: prod.splits option.splits)

lemma scanCompounds_fields [simp]:
  "supercell_dims (scanCompounds ms r) = supercell_dims r"
  "structure_type (scanCompounds ms r) = structure_type r"
  "lattice_parameter (scanCompounds ms r) = lattice_parameter r"
  "source_type (scanCompounds ms r) = source_type r"
  "source_params (scanCompounds ms r) = source_params r"
  "use_llm (scanCompounds ms r) = use_llm r"
  "llm_provider (scanCompounds ms r) = llm_provider r"
  "llm_params (scanCompounds ms r) = llm_params r"
  by (induction ms r rule: scanCompounds.induct; simp add: Let_def)+

lemma formulaStage_fields [simp]:
  "supercell_dims (formulaStage t r) = supercell_dims r"
  "structure_type (formulaStage t r) = structure_type r"
  "lattice_parameter (formulaStage t r) = lattice_parameter r"
  "source_type (formulaStage t r) = source_type r"
  "source_params (formulaStage t r) = source_params r"
  "use_llm (formulaStage t r) = use_llm r"
  "llm_provider (formulaStage t r) = llm_provider r"
  "llm_params (formulaStage t r) = llm_params r"
  by (simp_all add: formulaStage_def)

lemma elementStage_fields [simp]:
  "supercell_dims (elementStage t low r) = supercell_dims r"
  "structure_type (elementStage t low r) = structure_type r"
  "lattice_parameter (elementStage t low r) = lattice_parameter r"
  "compound (elementStage t low r) = compound r"
  "source_type (elementStage t low r) = source_type r"
  "source_params (elementStage t low r) = source_params r"
  "use_llm (elementStage t low r) = use_llm r"
  "llm_provider (elementStage t low r) = llm_provider r"
  "llm_params (elementStage t low r) = llm_params r"
  by (simp_all add: elementStage_def Let_def split: option.splits list.splits)

lemma sourceStage_fields [simp]:
  "supercell_dims (sourceStage t r) = supercell_dims r"
  "structure_type (sourceStage t r) = structure_type r"
  "lattice_parameter (sourceStage t r) = lattice_parameter r"
  "compound (sourceStage t r) = compound r"
  "source_params (sourceStage t r) = source_params r"
  "use_llm (sourceStage t r) = use_llm r"
  "llm_provider (sourceStage t r) = llm_provider r"
  "llm_params (sourceStage t r) = llm_params r"
  by (simp_all add: sourceStage_def split: option.splits)

text \<open>
  The two ways out of the interpreter: the return inside the loop over \<^verbatim>\<open>compoundMap\<close>,
  and the detection of external sources.
\<close>

lemma parse_hit:
  "compoundLookup (toLowerCase t) = Some entry \<Longrightarrow>
     parseMaterialRequest t = compoundHit entry (extracted t)"
  by (simp add: parseMaterialRequest_def extracted_def Let_def)

lemma parse_miss:
  "compoundLookup (toLowerCase t) = None \<Longrightarrow>
     parseMaterialRequest t = sourceStage t (beforeSource t)"
  by (simp add: parseMaterialRequest_def beforeSource_def extracted_def Let_def)

lemma extracted_fields [simp]:
  "material_name (extracted t) = ''Si''"
  "compound (extracted t) = None"
  "source_type (extracted t) = None"
  "source_params (extracted t) = []"
  "use_llm (extracted t) = False"
  "llm_provider (extracted t) = None"
  "llm_params (extracted t) = []"
  by (simp_all add: extracted_def defaults_def)

lemma beforeSource_source_type [simp]: "source_type (beforeSource t) = None"
  by (simp add: beforeSource_def Let_def)

section \<open>COD identifiers\<close>

lemma cod_whole:
  assumes "match True codPattern t = Some m" and "take 3 (whole m) = ''cod''"
  shows "\<exists>dash ds. whole m = ''cod'' @ dash @ ds \<and> (dash = [] \<or> dash = ''-'')
           \<and> ds \<noteq> [] \<and> list_all isDigit ds"
proof -
  from match_den [OF assms(1)] have "den True codPattern (whole m) (groups m)"
    by simp
  then have "\<exists>c1 c2 c3 v. whole m = c1 # c2 # c3 # v
      \<and> ((v \<noteq> [] \<and> list_all isDigit v)
          \<or> (\<exists>ds. v = CHR ''-'' # ds \<and> ds \<noteq> [] \<and> list_all isDigit ds))"
    by (auto simp: codPattern_def lit_def digits_def dest: in_class_dash)
  then obtain c1 c2 c3 v where w: "whole m = c1 # c2 # c3 # v"
    and v: "(v \<noteq> [] \<and> list_all isDigit v)
          \<or> (\<exists>ds. v = CHR ''-'' # ds \<and> ds \<noteq> [] \<and> list_all isDigit ds)"
    by blast
  from w assms(2) have cod: "whole m = ''cod'' @ v" by simp
  from v show ?thesis
  proof
    assume "v \<noteq> [] \<and> list_all isDigit v"
    with cod have "whole m = ''cod'' @ [] @ v \<and> ([] = [] \<or> [] = ''-'') \<and> v \<noteq> [] \<and> list_all isDigit v"
      by simp
    then show ?thesis by blast
  next
    assume "\<exists>ds. v = CHR ''-'' # ds \<and> ds \<noteq> [] \<and> list_all isDigit ds"
    then obtain ds where "v = CHR ''-'' # ds" "ds \<noteq> []" "list_all isDigit ds" by blast
    with cod have "whole m = ''cod'' @ ''-'' @ ds \<and> (''-'' = [] \<or> ''-'' = ''-'') \<and> ds \<noteq> [] \<and> list_all isDigit ds"
      by simp
    then show ?thesis by blast
  qed
qed

lemma codPrefix_strip:
  assumes "ds \<noteq> []" and "list_all isDigit ds" and "dash = [] \<or> dash = ''-''"
  shows "replaceEmpty codPrefix (''cod'' @ dash @ ds) = ds"
proof -
  from assms(1,2) obtain d ds' where ds: "ds = d # ds'" "d \<noteq> CHR ''-''"
    by (cases ds) (auto dest: isDigit_not_dash)
  from assms(3) show ?thesis
  proof
    assume "dash = []"
    with ds show ?thesis
      by (simp add: replaceEmpty_def match_def codPrefix_def lit_def mkMatch_def)
  next
    assume "dash = ''-''"
    then show ?thesis
      by (simp add: replaceEmpty_def match_def codPrefix_def lit_def mkMatch_def)
  qed
qed

section \<open>The formula scan\<close>

lemma scanCompounds_origin:
  "compound r = None \<Longrightarrow> compound (scanCompounds ms r) = Some els \<Longrightarrow>
     \<exists>tok\<in>set ms. \<not> isCommonWord tok \<and> material_name (scanCompounds ms r) = tok
       \<and> ((test (Cls [Digit]) tok \<and> els = matchAll elementPattern tok \<and> 2 \<le> length els)
            \<or> (\<not> test (Cls [Digit]) tok \<and> length tok = 2 \<and> els = [[tok ! 0], [tok ! 1]]))"
proof (induction ms r rule: scanCompounds.induct)
  case (1 result)
  then show ?case by simp
next
  case (2 m ms result)
  show ?case
  proof (cases "isCommonWord m")
    case True
    with 2 show ?thesis by simp
  next
    case notcommon: False
    show ?thesis
    proof (cases "test (Cls [Digit]) m")
      case True
      show ?thesis
      proof (cases "2 \<le> length (matchAll elementPattern m)")
        case True
        with notcommon \<open>test (Cls [Digit]) m\<close> "2.prems" show ?thesis
          by (auto simp: Let_def)
      next
        case False
        with notcommon \<open>test (Cls [Digit]) m\<close> "2.prems"
        have "compound (scanCompounds ms (result\<lparr>material_name := m\<rparr>)) = Some els"
          by (simp add: Let_def)
        with "2.IH"(1) [OF notcommon \<open>test (Cls [Digit]) m\<close> refl refl] False "2.prems"(1)
        have "\<exists>tok\<in>set ms. \<not> isCommonWord tok
            \<and> material_name (scanCompounds ms (result\<lparr>material_name := m\<rparr>)) = tok
            \<and> ((test (Cls [Digit]) tok \<and> els = matchAll elementPattern tok \<and> 2 \<le> length els)
              \<or> (\<not> test (Cls [Digit]) tok \<and> length tok = 2 \<and> els = [[tok ! 0], [tok ! 1]]))"
          by simp
        with notcommon \<open>test (Cls [Digit]) m\<close> False show ?thesis
          by (auto simp: Let_def)
      qed
    next
      case nodigit: False
      show ?thesis
      proof (cases "length m = 2 \<and> test (Cls [upper]) [m ! 0] \<and> test (Cls [upper]) [m ! 1]")
        case True
        with notcommon nodigit "2.prems" show ?thesis
          by auto
      next
        case False
        with notcommon nodigit "2.prems"
        have "compound (scanCompounds ms result) = Some els"
          by auto
        with "2.IH"(2) [OF notcommon nodigit False] "2.prems"(1)
        have "\<exists>tok\<in>set ms. \<not> isCommonWord tok
            \<and> material_name (scanCompounds ms result) = tok
            \<and> ((test (Cls [Digit]) tok \<and> els = matchAll elementPattern tok \<and> 2 \<le> length els)
              \<or> (\<not> test (Cls [Digit]) tok \<and> length tok = 2 \<and> els = [[tok ! 0], [tok ! 1]]))"
          by simp
        with notcommon nodigit False show ?thesis
          by auto
      qed
    qed
  qed
qed

lemma compound_parse:
  "compound (parseMaterialRequest t) =
     (case compoundLookup (toLowerCase t) of
        Some entry \<Rightarrow> Some (fst (snd (snd entry)))
      | None \<Rightarrow> compound (scanCompounds (matchAll compoundPattern t) (extracted t)))"
  by (auto simp: parse_hit parse_miss beforeSource_def Let_def formulaStage_def
      split: option.splits)



section \<open>Stop-list words\<close>

text \<open>
  The stop-list words are written in the letters \<^verbatim>\<open>a-z\<close>; a text with a character that
  is not a letter of \<^verbatim>\<open>A-Za-z\<close> is therefore never a stop-list word, in any case.
\<close>

lemma commonWords_lower:
  "list_all (list_all (\<lambda>c. 97 \<le> code c \<and> code c \<le> 122)) commonWords"
  by (simp add: commonWords_def code_def)

lemma isCommonWord_letters:
  assumes "isCommonWord s" and "c \<in> set s"
  shows "isLetter c"
proof -
  from assms(1) have "toLowerCase s \<in> set commonWords"
    by (simp add: isCommonWord_def)
  with commonWords_lower have "list_all (\<lambda>c. 97 \<le> code c \<and> code c \<le> 122) (toLowerCase s)"
    by (simp add: list_all_iff)
  with assms(2) have "97 \<le> code (toLower c) \<and> code (toLower c) \<le> 122"
    by (simp add: toLowerCase_def list_all_iff)
  then show ?thesis
    by (auto simp: isLetter_def code_toLower split: if_splits)
qed

lemma not_letter_not_common: "c \<in> set s \<Longrightarrow> \<not> isLetter c \<Longrightarrow> \<not> isCommonWord s"
  using isCommonWord_letters by blast

lemma isDigit_not_letter: "isDigit c \<Longrightarrow> \<not> isLetter c"
  by (auto simp: isDigit_def isLetter_def)

lemma nonempty_all_ex: "list_all P ds \<Longrightarrow> ds \<noteq> [] \<Longrightarrow> \<exists>c. c \<in> set ds \<and> P c"
  by (cases ds) auto

lemma Si_not_common: "\<not> isCommonWord ''Si''"
  by code_simp

lemma den_seqs_part:
  "den ic (seqs rs) w cl \<Longrightarrow> r \<in> set rs \<Longrightarrow> \<exists>u x v cx. w = u @ x @ v \<and> den ic r x cx"
proof (induction rs arbitrary: w cl)
  case Nil
  then show ?case by simp
next
  case (Cons a rs)
  from Cons.prems(1) obtain u v ca cb where
    w: "w = u @ v" "den ic a u ca" "den ic (seqs rs) v cb"
    by auto
  show ?case
  proof (cases "r = a")
    case True
    with w have "w = [] @ u @ v \<and> den ic r u ca" by simp
    then show ?thesis by blast
  next
    case False
    with Cons.prems(2) have "r \<in> set rs" by simp
    from Cons.IH [OF w(3) this] obtain u' x v' cx where "v = u' @ x @ v'" "den ic r x cx"
      by blast
    with w(1) have "w = (u @ u') @ x @ v' \<and> den ic r x cx" by simp
    then show ?thesis by blast
  qed
qed

lemma den_seqs_digits:
  assumes "den ic (seqs rs) w cl" and "digits \<in> set rs"
  shows "\<exists>d. d \<in> set w \<and> isDigit d"
proof -
  from den_seqs_part [OF assms] obtain u x v cx where
    "w = u @ x @ v" "den ic digits x cx"
    by blast
  then show ?thesis
    by (auto simp: digits_def dest: nonempty_all_ex)
qed

lemma den_seqs_char:
  assumes "den False (seqs rs) w cl" and "Cls [Ch c] \<in> set rs"
  shows "c \<in> set w"
proof -
  from den_seqs_part [OF assms] obtain u x v cx where
    "w = u @ x @ v" "den False (Cls [Ch c]) x cx"
    by blast
  then show ?thesis
    by auto
qed

lemma mp_has_digit:
  assumes "match True mpPattern t = Some m"
  shows "\<exists>d. d \<in> set (whole m) \<and> isDigit d"
proof -
  from match_den [OF assms] have "den True mpPattern (whole m) (groups m)"
    by simp
  then show ?thesis
    unfolding mpPattern_def by (rule den_seqs_digits) simp
qed

lemma cod_has_digit:
  assumes "match True codPattern t = Some m"
  shows "\<exists>d. d \<in> set (replaceEmpty codPrefix (whole m)) \<and> isDigit d"
proof -
  from match_den [OF assms] have "den True codPattern (whole m) (groups m)"
    by simp
  then have "\<exists>d. d \<in> set (whole m) \<and> isDigit d"
    unfolding codPattern_def by (rule den_seqs_digits) simp
  then obtain d where d: "d \<in> set (whole m)" "isDigit d"
    by blast
  show ?thesis
  proof (cases "match False codPrefix (whole m)")
    case None
    with d show ?thesis by (auto simp: replaceEmpty_def)
  next
    case (Some m')
    from match_den [OF Some] have w: "whole m = before m' @ whole m' @ after m'"
      and "den False codPrefix (whole m') (groups m')"
      by simp_all
    then have "\<forall>c\<in>set (whole m'). c \<in> set ''cod-''"
      by (auto simp: codPrefix_def lit_def)
    moreover have "\<forall>c\<in>set ''cod-''. \<not> isDigit c"
      by (simp add: isDigit_def code_def)
    ultimately have "d \<notin> set (whole m')"
      using d(2) by blast
    with d(1) w have "d \<in> set (before m' @ after m')"
      by (metis Un_iff set_append)
    with Some d(2) show ?thesis
      by (auto simp: replaceEmpty_def)
  qed
qed

lemma url_has_colon:
  assumes "match False urlPattern t = Some m"
  shows "CHR '':'' \<in> set (whole m)"
proof -
  from match_den [OF assms] have "den False urlPattern (whole m) (groups m)"
    by simp
  then show ?thesis
    unfolding urlPattern_def by (rule den_seqs_char) (simp add: lit_def)
qed

lemma separator_in_text:
  assumes "test separatorPattern t"
  shows "CHR ''/'' \<in> set t \<or> CHR 0x5C \<in> set t"
proof -
  from assms obtain m where m: "match False separatorPattern t = Some m"
    by (auto simp: test_def)
  from match_den [OF m] have t: "t = before m @ whole m @ after m"
    and "den False separatorPattern (whole m) (groups m)"
    by simp_all
  from this(2) obtain c where "whole m = [c]" "in_class False [Ch CHR ''/'', Ch (CHR 0x5C)] c"
    by (auto simp: separatorPattern_def)
  then have "c \<in> set (whole m)" "c = CHR ''/'' \<or> c = CHR 0x5C"
    by (auto simp: in_class_def)
  with t show ?thesis
    by (metis Un_iff set_append)
qed

lemma extension_in_text:
  assumes "test extensionPattern t"
  shows "CHR ''.'' \<in> set t"
proof -
  from assms obtain m where m: "match False extensionPattern t = Some m"
    by (auto simp: test_def)
  from match_den [OF m] have t: "t = before m @ whole m @ after m"
    and "den False extensionPattern (whole m) (groups m)"
    by simp_all
  from this(2) have "CHR ''.'' \<in> set (whole m)"
    unfolding extensionPattern_def by (rule den_seqs_char) simp
  with t show ?thesis
    by (metis Un_iff set_append)
qed

lemma set_dropWhile_keeps: "c \<in> set s \<Longrightarrow> \<not> P c \<Longrightarrow> c \<in> set (dropWhile P s)"
  by (induction s) auto

lemma set_trim_keeps: "c \<in> set s \<Longrightarrow> \<not> isSpace c \<Longrightarrow> c \<in> set (trim s)"
  by (simp add: trim_def set_dropWhile_keeps)

lemma file_name_not_common:
  assumes "test separatorPattern t \<or> test extensionPattern t"
  shows "\<not> isCommonWord (trim t)"
proof -
  from assms separator_in_text extension_in_text
  obtain c where c: "c \<in> set t" "c = CHR ''/'' \<or> c = CHR 0x5C \<or> c = CHR ''.''"
    by blast
  from c(2) have "\<not> isSpace c" "\<not> isLetter c"
    by (auto simp: isSpace_def isLetter_def code_def)
  with c(1) show ?thesis
    using set_trim_keeps not_letter_not_common by blast
qed

lemma sourceStage_name:
  assumes "\<not> isCommonWord (material_name r)"
  shows "\<not> isCommonWord (material_name (sourceStage t r))"
proof (cases "match True mpPattern t")
  case (Some m)
  with mp_has_digit [OF Some] show ?thesis
    by (auto simp: sourceStage_def dest: isDigit_not_letter not_letter_not_common)
next
  case mp: None
  show ?thesis
  proof (cases "match True codPattern t")
    case (Some m)
    with mp cod_has_digit [OF Some] show ?thesis
      by (auto simp: sourceStage_def dest: isDigit_not_letter not_letter_not_common)
  next
    case cod: None
    show ?thesis
    proof (cases "match False urlPattern t")
      case (Some m)
      have "\<not> isLetter CHR '':''"
        by (simp add: isLetter_def code_def)
      with mp cod Some url_has_colon [OF Some] show ?thesis
        by (auto simp: sourceStage_def dest: not_letter_not_common)
    next
      case None
      with mp cod assms file_name_not_common [of t] show ?thesis
        by (auto simp: sourceStage_def)
    qed
  qed
qed

lemma scanCompounds_name:
  "\<not> isCommonWord (material_name r) \<Longrightarrow> \<not> isCommonWord (material_name (scanCompounds ms r))"
  by (induction ms r rule: scanCompounds.induct) (auto simp: Let_def)

lemma elementMap_symbols: "list_all (\<lambda>entry. \<not> isCommonWord (snd entry)) elementMap"
  by code_simp

lemma compoundMap_names:
  "list_all (\<lambda>entry. \<not> isCommonWord (fst (snd entry))
      \<and> list_all (\<lambda>e. \<not> isCommonWord e) (fst (snd (snd entry)))) compoundMap"
  by code_simp

lemma elementStage_name:
  assumes "\<not> isCommonWord (material_name r)"
  shows "\<not> isCommonWord (material_name (elementStage t low r))"
proof -
  let ?r1 = "case elementLookup low of None \<Rightarrow> r | Some entry \<Rightarrow> r\<lparr>material_name := snd entry\<rparr>"
  have r1: "\<not> isCommonWord (material_name ?r1)"
  proof (cases "elementLookup low")
    case None
    with assms show ?thesis by simp
  next
    case (Some entry)
    then have "entry \<in> set elementMap"
      by (auto simp: elementLookup_def find_Some_iff)
    with elementMap_symbols Some show ?thesis
      by (auto simp: list_all_iff)
  qed
  let ?pot = "filter (\<lambda>m. \<not> isCommonWord m \<and> length m \<le> 2) (matchAll symbolPattern t)"
  show ?thesis
  proof (cases ?pot)
    case Nil
    with r1 show ?thesis by (simp add: elementStage_def Let_def Si_not_common)
  next
    case (Cons e es)
    then have "e \<in> set ?pot" by simp
    then have "\<not> isCommonWord e" by simp
    with r1 Cons show ?thesis by (simp add: elementStage_def Let_def Si_not_common)
  qed
qed

lemma beforeSource_name: "\<not> isCommonWord (material_name (beforeSource t))"
  by (simp add: beforeSource_def Let_def formulaStage_def elementStage_name scanCompounds_name Si_not_common)

section \<open>Supercell dimensions of a match\<close>










section \<open>The match that backtracking reports first\<close>

















text \<open>
  With no digit before it, a triple is the leftmost match of the triple pattern.
\<close>

lemma triple_leftmost_plain:
  assumes "list_all (\<lambda>c. \<not> isDigit c) pre"
    and "match False (hd supercellPatterns) (toLowerCase (pre @ rest)) = Some m"
  shows "length pre \<le> length (before m)"
proof (rule ccontr)
  assume "\<not> length pre \<le> length (before m)"
  then have short: "length (before m) < length (toLowerCase pre)"
    by (simp add: toLowerCase_def)
  from match_den [OF assms(2)] have
    split: "toLowerCase pre @ toLowerCase rest = before m @ whole m @ after m"
    and den: "den False (hd supercellPatterns) (whole m) (groups m)"
    by (simp_all add: toLowerCase_def)
  obtain rest' where "hd supercellPatterns = Seq (Group 1 digits) rest'"
    by (simp add: supercellPatterns_def)
  with den obtain u u' where "whole m = u @ u'" "u \<noteq> []" "list_all isDigit u"
    by (auto simp: digits_def)
  then obtain d w where w: "whole m = d # w" "isDigit d"
    by (cases u) auto
  from split w have "(toLowerCase pre @ toLowerCase rest) ! length (before m) = d"
    by simp
  with short have "toLowerCase pre ! length (before m) = d"
    by (simp add: nth_append)
  with short have "d \<in> set (toLowerCase pre)"
    using nth_mem by blast
  with assms(1) w(2) show False
    by (auto simp: toLowerCase_def list_all_iff)
qed

section \<open>What every returned record satisfies\<close>


















section \<open>The claims\<close>

text \<open>
  Claim C7.  For the input \<^verbatim>\<open>SiO2 2x2x2\<close> the interpreter returns the material name
  \<^verbatim>\<open>SiO2\<close>, the compound \<^verbatim>\<open>["Si", "O"]\<close>, the structure type \<^verbatim>\<open>quartz\<close> that the
  compound table forces, and the supercell dimensions \<open>(2, 2, 2)\<close>.
\<close>

theorem sio2_request:
  "material_name (parseMaterialRequest ''SiO2 2x2x2'') = ''SiO2''
   \<and> compound (parseMaterialRequest ''SiO2 2x2x2'') = Some [''Si'', ''O'']
   \<and> structure_type (parseMaterialRequest ''SiO2 2x2x2'') = Some ''quartz''
   \<and> supercell_dims (parseMaterialRequest ''SiO2 2x2x2'') = [Num 2, Num 2, Num 2]"
  by code_simp

text \<open>
  Claim C6.  The structure stage walks the families in the order of declaration and keeps
  the first one that has a synonym in the lower-case text.  So when the text has synonyms
  of two families, the family declared later is never the one assigned, wherever the
  synonyms stand in the text: the assigned family is the first matching one in the order
  of declaration, which is the earlier of the two unless a family declared before it
  matches as well.
\<close>

theorem structure_declaration_order:
  assumes "i < j" and "j < length structureKeywords"
    and "list_ex (includesStr (toLowerCase t)) (snd (structureKeywords ! i))"
    and "list_ex (includesStr (toLowerCase t)) (snd (structureKeywords ! j))"
  shows "structure_type (structureStage (toLowerCase t) r) \<noteq> Some (fst (structureKeywords ! j))
    \<and> (\<exists>k\<le>i. structure_type (structureStage (toLowerCase t) r) = Some (fst (structureKeywords ! k))
           \<and> list_ex (includesStr (toLowerCase t)) (snd (structureKeywords ! k))
           \<and> (\<forall>k'<k. \<not> list_ex (includesStr (toLowerCase t)) (snd (structureKeywords ! k'))))
    \<and> ((\<forall>k'<i. \<not> list_ex (includesStr (toLowerCase t)) (snd (structureKeywords ! k'))) \<longrightarrow>
          structure_type (structureStage (toLowerCase t) r) = Some (fst (structureKeywords ! i)))"
proof -
  let ?P = "\<lambda>entry. list_ex (\<lambda>kw. includesStr (toLowerCase t) kw) (snd entry)"
  have i: "i < length structureKeywords" using assms by simp
  then have "structureKeywords ! i \<in> set structureKeywords"
    by simp
  with assms(3) have "find ?P structureKeywords \<noteq> None"
    unfolding find_None_iff by blast
  then obtain e where e: "find ?P structureKeywords = Some e" by blast
  then obtain k where k: "k < length structureKeywords" "?P (structureKeywords ! k)"
      "e = structureKeywords ! k" "\<forall>k'<k. \<not> ?P (structureKeywords ! k')"
    by (auto simp: find_Some_iff)
  from k(4) assms(3) have ki: "k \<le> i"
    by (meson not_le_imp_less)
  with assms(1) have "k \<noteq> j" by simp
  with k(1) assms(2) have "fst (structureKeywords ! k) \<noteq> fst (structureKeywords ! j)"
    using structureKeywords_distinct
      nth_eq_iff_index_eq [of "map fst structureKeywords" k j] by simp
  moreover from e k(3) have st: "structure_type (structureStage (toLowerCase t) r)
      = Some (fst (structureKeywords ! k))"
    by (simp add: structureStage_def structureMatch_def)
  moreover from k(2) ki have "(\<forall>k'<i. \<not> ?P (structureKeywords ! k')) \<longrightarrow> k = i"
    by (meson le_neq_implies_less)
  ultimately show ?thesis
    using k(2,4) ki by auto
qed

theorem structure_declaration_order_witness:
  "list_ex (includesStr (toLowerCase ''BCC then fcc'')) (snd (structureKeywords ! 0))
   \<and> list_ex (includesStr (toLowerCase ''BCC then fcc'')) (snd (structureKeywords ! 1))
   \<and> structure_type (structureStage (toLowerCase ''BCC then fcc'') defaults) = Some ''fcc''"
proof -
  have a: "list_ex (includesStr (toLowerCase ''BCC then fcc'')) (snd (structureKeywords ! 0))"
    by code_simp
  have b: "list_ex (includesStr (toLowerCase ''BCC then fcc'')) (snd (structureKeywords ! 1))"
    by code_simp
  have c: "(1::nat) < length structureKeywords"
    by (simp add: structureKeywords_def)
  have d: "fst (structureKeywords ! 0) = ''fcc''"
    by (simp add: structureKeywords_def)
  from structure_declaration_order [of 0 1 "''BCC then fcc''" defaults, OF _ c a b] d a b
  show ?thesis by simp
qed




text \<open>
  Claim C2, as amended.  When no key of \<^verbatim>\<open>compoundMap\<close> occurs in the lower-case text,
  the text has no Materials-Project identifier, and its first COD token is written with
  the lower-case prefix \<^verbatim>\<open>cod\<close>, the source type is \<^verbatim>\<open>cod\<close> and the name is the
  digits of that token, the prefix \<^verbatim>\<open>cod\<close> or \<^verbatim>\<open>cod-\<close> stripped.
\<close>

theorem cod_identifier:
  assumes "compoundLookup (toLowerCase t) = None"
    and "match True mpPattern t = None"
    and "match True codPattern t = Some m"
    and "take 3 (whole m) = ''cod''"
  shows "source_type (parseMaterialRequest t) = Some ''cod''
         \<and> material_name (parseMaterialRequest t) \<noteq> []
         \<and> list_all isDigit (material_name (parseMaterialRequest t))
         \<and> (whole m = ''cod'' @ material_name (parseMaterialRequest t)
              \<or> whole m = ''cod-'' @ material_name (parseMaterialRequest t))"
proof -
  from cod_whole [OF assms(3,4)] obtain dash ds where
    w: "whole m = ''cod'' @ dash @ ds" "dash = [] \<or> dash = ''-''" "ds \<noteq> []" "list_all isDigit ds"
    by blast
  then have strip: "replaceEmpty codPrefix (whole m) = ds"
    using codPrefix_strip [of ds dash] by simp
  from assms(1) have "parseMaterialRequest t = sourceStage t (beforeSource t)"
    by (rule parse_miss)
  with assms(2,3) strip have "source_type (parseMaterialRequest t) = Some ''cod''"
    and "material_name (parseMaterialRequest t) = ds"
    by (simp_all add: sourceStage_def)
  with w show ?thesis by auto
qed

theorem cod_identifier_witness:
  "compoundLookup (toLowerCase ''cod-2000001'') = None
   \<and> match True mpPattern ''cod-2000001'' = None
   \<and> map_option whole (match True codPattern ''cod-2000001'') = Some ''cod-2000001''
   \<and> source_type (parseMaterialRequest ''cod-2000001'') = Some ''cod''
   \<and> material_name (parseMaterialRequest ''cod-2000001'') = ''2000001''"
proof -
  have a: "compoundLookup (toLowerCase ''cod-2000001'') = None"
    by code_simp
  have b: "match True mpPattern ''cod-2000001'' = None"
    by code_simp
  have c: "match True codPattern ''cod-2000001'' =
      Some \<lparr>before = [], whole = ''cod-2000001'', groups = [], lastc = Some CHR ''1'', after = []\<rparr>"
    by code_simp
  have d: "\<not> isDigit CHR ''-''"
    by (simp add: isDigit_def code_def)
  from cod_identifier [OF a b c] d
  have "source_type (parseMaterialRequest ''cod-2000001'') = Some ''cod''
      \<and> material_name (parseMaterialRequest ''cod-2000001'') = ''2000001''"
    by auto
  with a b c show ?thesis by simp
qed

text \<open>
  The claim as stated fails: \<^verbatim>\<open>mp-1 cod-2\<close> and \<^verbatim>\<open>nacl cod-2\<close> contain a COD token,
  and the source type is \<^verbatim>\<open>mp\<close> for the first and absent for the second.
\<close>

theorem cod_identifier_not_reached:
  "map_option whole (match True codPattern ''mp-1 cod-2'') = Some ''cod-2''
   \<and> source_type (parseMaterialRequest ''mp-1 cod-2'') = Some ''mp''
   \<and> material_name (parseMaterialRequest ''mp-1 cod-2'') = ''mp-1''
   \<and> map_option whole (match True codPattern ''nacl cod-2'') = Some ''cod-2''
   \<and> source_type (parseMaterialRequest ''nacl cod-2'') = None
   \<and> material_name (parseMaterialRequest ''nacl cod-2'') = ''NaCl''"
  by code_simp

text \<open>
  Claim C4, as amended.  When no key of \<^verbatim>\<open>compoundMap\<close> occurs in the text and the
  interpreter returns a compound, the compound comes from one candidate token that is not
  a stop-list word: either the token contains a digit, and then the compound is its
  segmentation into element symbols and has at least two symbols (which need not be
  distinct), or it is a token of two capital letters.
\<close>

theorem formula_needs_two_symbols:
  assumes "compoundLookup (toLowerCase t) = None"
    and "compound (parseMaterialRequest t) = Some els"
  shows "\<exists>tok\<in>set (matchAll compoundPattern t). \<not> isCommonWord tok
       \<and> ((test (Cls [Digit]) tok \<and> els = matchAll elementPattern tok \<and> 2 \<le> length els)
            \<or> (\<not> test (Cls [Digit]) tok \<and> length tok = 2 \<and> els = [[tok ! 0], [tok ! 1]]))"
proof -
  from assms have "compound (scanCompounds (matchAll compoundPattern t) (extracted t)) = Some els"
    by (simp add: compound_parse)
  then show ?thesis
    using scanCompounds_origin [of "extracted t" "matchAll compoundPattern t" els] by auto
qed

theorem formula_needs_two_symbols_witness:
  "compoundLookup (toLowerCase ''NaF2 slab'') = None
   \<and> compound (parseMaterialRequest ''NaF2 slab'') = Some [''Na'', ''F'']
   \<and> matchAll compoundPattern ''NaF2 slab'' = [''NaF2'']
   \<and> test (Cls [Digit]) ''NaF2''
   \<and> matchAll elementPattern ''NaF2'' = [''Na'', ''F'']"
proof -
  have a: "compoundLookup (toLowerCase ''NaF2 slab'') = None"
    by code_simp
  have b: "compound (parseMaterialRequest ''NaF2 slab'') = Some [''Na'', ''F'']"
    by code_simp
  have c: "matchAll compoundPattern ''NaF2 slab'' = [''NaF2'']"
    by code_simp
  have d: "test (Cls [Digit]) ''NaF2''"
    by code_simp
  from formula_needs_two_symbols [OF a b] c d
  have "matchAll elementPattern ''NaF2'' = [''Na'', ''F'']"
    by simp
  with a b c d show ?thesis by simp
qed

text \<open>
  The claim as stated asks for two distinct symbols.  The token \<^verbatim>\<open>HH2\<close> segments into
  the one symbol \<^verbatim>\<open>H\<close> twice, and is accepted.
\<close>

theorem formula_accepts_repeated_symbol:
  "matchAll compoundPattern ''HH2'' = [''HH2'']
   \<and> test (Cls [Digit]) ''HH2''
   \<and> matchAll elementPattern ''HH2'' = [''H'', ''H'']
   \<and> card (set (matchAll elementPattern ''HH2'')) = 1
   \<and> compound (parseMaterialRequest ''HH2'') = Some [''H'', ''H'']"
  by code_simp



text \<open>
  Claim C9, as amended.  For every input the material name is not a stop-list word, in
  whatever case it is written.  A compound taken from \<^verbatim>\<open>compoundMap\<close> has no stop-list
  word among its entries.  A compound found by the formula scan comes from a candidate
  token that is not a stop-list word; its entries are segments of that token (or its two
  letters), and the stop list is not applied to the segments.
\<close>

theorem stop_words_never_named:
  "\<not> isCommonWord (material_name (parseMaterialRequest t))
   \<and> (\<forall>entry els. compoundLookup (toLowerCase t) = Some entry
          \<and> compound (parseMaterialRequest t) = Some els \<longrightarrow>
        list_all (\<lambda>e. \<not> isCommonWord e) els)
   \<and> (\<forall>els. compoundLookup (toLowerCase t) = None \<and> compound (parseMaterialRequest t) = Some els \<longrightarrow>
        (\<exists>tok\<in>set (matchAll compoundPattern t). \<not> isCommonWord tok
           \<and> (els = matchAll elementPattern tok \<or> els = [[tok ! 0], [tok ! 1]])))"
proof (intro conjI allI impI)
  show "\<not> isCommonWord (material_name (parseMaterialRequest t))"
  proof (cases "compoundLookup (toLowerCase t)")
    case None
    then show ?thesis
      by (simp add: parse_miss sourceStage_name beforeSource_name)
  next
    case (Some entry)
    then have "entry \<in> set compoundMap"
      by (auto simp: compoundLookup_def find_Some_iff)
    with compoundMap_names Some show ?thesis
      by (auto simp: parse_hit list_all_iff)
  qed
next
  fix entry els
  assume a: "compoundLookup (toLowerCase t) = Some entry \<and> compound (parseMaterialRequest t) = Some els"
  then have "entry \<in> set compoundMap"
    by (auto simp: compoundLookup_def find_Some_iff)
  with compoundMap_names a show "list_all (\<lambda>e. \<not> isCommonWord e) els"
    by (auto simp: parse_hit list_all_iff)
next
  fix els
  assume a: "compoundLookup (toLowerCase t) = None \<and> compound (parseMaterialRequest t) = Some els"
  then have "compound (scanCompounds (matchAll compoundPattern t) (extracted t)) = Some els"
    by (auto simp: compound_parse)
  then show "\<exists>tok\<in>set (matchAll compoundPattern t). \<not> isCommonWord tok
           \<and> (els = matchAll elementPattern tok \<or> els = [[tok ! 0], [tok ! 1]])"
    using scanCompounds_origin [of "extracted t" "matchAll compoundPattern t" els] by auto
qed

theorem stop_words_never_named_witness:
  "compoundLookup (toLowerCase ''The NaF2 slab'') = None
   \<and> matchAll compoundPattern ''The NaF2 slab'' = [''The'', ''NaF2'']
   \<and> isCommonWord ''The''
   \<and> compound (parseMaterialRequest ''The NaF2 slab'') = Some [''Na'', ''F'']
   \<and> \<not> isCommonWord (material_name (parseMaterialRequest ''The NaF2 slab''))
   \<and> (\<exists>tok\<in>set [''The'', ''NaF2'']. \<not> isCommonWord tok
         \<and> ([''Na'', ''F''] = matchAll elementPattern tok \<or> [''Na'', ''F''] = [[tok ! 0], [tok ! 1]]))
   \<and> compoundLookup (toLowerCase ''quartz'') = Some (''quartz'', ''SiO2'', [''Si'', ''O''], Some ''quartz'')
   \<and> compound (parseMaterialRequest ''quartz'') = Some [''Si'', ''O'']
   \<and> list_all (\<lambda>e. \<not> isCommonWord e) [''Si'', ''O'']"
proof -
  have a: "compoundLookup (toLowerCase ''The NaF2 slab'') = None"
    by code_simp
  have b: "compound (parseMaterialRequest ''The NaF2 slab'') = Some [''Na'', ''F'']"
    by code_simp
  have c: "matchAll compoundPattern ''The NaF2 slab'' = [''The'', ''NaF2'']"
    by code_simp
  have d: "isCommonWord ''The''"
    by code_simp
  have e: "compoundLookup (toLowerCase ''quartz'') = Some (''quartz'', ''SiO2'', [''Si'', ''O''], Some ''quartz'')"
    by code_simp
  have f: "compound (parseMaterialRequest ''quartz'') = Some [''Si'', ''O'']"
    by code_simp
  note n = stop_words_never_named [of "''The NaF2 slab''"]
  from n have 1: "\<not> isCommonWord (material_name (parseMaterialRequest ''The NaF2 slab''))"
    by blast
  from n a b have "\<exists>tok\<in>set (matchAll compoundPattern ''The NaF2 slab''). \<not> isCommonWord tok
         \<and> ([''Na'', ''F''] = matchAll elementPattern tok \<or> [''Na'', ''F''] = [[tok ! 0], [tok ! 1]])"
    by blast
  with c have 2: "\<exists>tok\<in>set [''The'', ''NaF2'']. \<not> isCommonWord tok
         \<and> ([''Na'', ''F''] = matchAll elementPattern tok \<or> [''Na'', ''F''] = [[tok ! 0], [tok ! 1]])"
    by simp
  from stop_words_never_named [of "''quartz''"] e f
  have 3: "list_all (\<lambda>e. \<not> isCommonWord e) [''Si'', ''O'']"
    by blast
  from a b c d e f 1 2 3 show ?thesis by blast
qed

text \<open>
  The claim as stated fails for the entries of a compound: the token \<^verbatim>\<open>InP2\<close> is
  accepted, and its first segment \<^verbatim>\<open>In\<close> is the stop-list word \<^verbatim>\<open>in\<close>,
  capitalized.
\<close>

theorem stop_word_segment_in_compound:
  "matchAll compoundPattern ''InP2'' = [''InP2'']
   \<and> compound (parseMaterialRequest ''InP2'') = Some [''In'', ''P'']
   \<and> toLowerCase ''In'' = ''in''
   \<and> isCommonWord ''In''"
  by code_simp









end
